theory Spec2Isabelle
  imports Main "HOL-Library.Word" "HOL-Library.AList" "HOL-Library.Multiset"
begin

section \<open>The scanner package (pkg/scanner/scanner.go)\<close>

text \<open>
  Go strings are byte sequences: \<open>string\<close> (a list of 8-bit \<open>char\<close>). A Go \<open>error\<close>
  is modelled by its message, the nil error by \<open>None\<close>. Go's \<open>int\<close> is taken at its
  width on 64-bit platforms: \<open>64 word\<close>, read as signed by \<open>sint\<close>. A Go
  \<open>map[string]T\<close> is an association list with distinct keys, read with \<open>map_of\<close> and
  written with \<open>AList.update\<close>; \<open>range\<close> visits the entries in list order (Go leaves the
  order open, and every ordering of the list is an input of the model). Calls to the
  logger are left out: they do not change what a function returns or calls.
\<close>

type_synonym error = string
type_synonym goint = "64 word"

subsection \<open>The functions of Go's strings and utf8 packages that the scanner calls\<close>

text \<open>
  \<open>runeWidth\<close> is the width that \<open>utf8.DecodeRuneInString\<close> returns: 0 on the empty
  string, 1 on an ASCII byte and on any invalid or truncated encoding, otherwise the
  length of the encoded rune (2 to 4). The accepted range of the second byte depends on
  the first one (the table \<open>acceptRanges\<close>).
\<close>

definition inRange :: "nat \<Rightarrow> nat \<Rightarrow> char \<Rightarrow> bool" where
  "inRange lo hi c = (lo \<le> of_char c \<and> (of_char c :: nat) \<le> hi)"

fun runeWidth :: "string \<Rightarrow> nat" where
  "runeWidth [] = 0"
| "runeWidth (c0 # rest) =
     (let s0 = (of_char c0 :: nat) in
      if s0 < 0x80 then 1
      else if s0 < 0xC2 \<or> 0xF4 < s0 then 1
      else
        let sz = (if s0 < 0xE0 then 2 else if s0 < 0xF0 then 3 else (4::nat));
            lo = (if s0 = 0xE0 then 0xA0 else if s0 = 0xF0 then 0x90 else 0x80);
            hi = (if s0 = 0xED then 0x9F else if s0 = 0xF4 then 0x8F else 0xBF)
        in if Suc (length rest) < sz then 1
           else if \<not> inRange lo hi (rest ! 0) then 1
           else if sz \<le> 2 then 2
           else if \<not> inRange 0x80 0xBF (rest ! 1) then 1
           else if sz \<le> 3 then 3
           else if \<not> inRange 0x80 0xBF (rest ! 2) then 1
           else 4)"

text \<open>The runes of a string, each as the bytes that encode it (\<open>strings.explode\<close>).\<close>

function runes :: "string \<Rightarrow> string list" where
  "runes s = (if s = [] then [] else take (runeWidth s) s # runes (drop (runeWidth s) s))"
  by pat_completeness auto
termination
proof (relation "measure length")
  show "wf (measure length)" by simp
next
  fix s :: string
  assume "s \<noteq> []"
  then obtain c0 rest where s: "s = c0 # rest" by (cases s) auto
  have "0 < runeWidth (c0 # rest)" by (simp add: Let_def)
  with s show "(drop (runeWidth s) s, s) \<in> measure length" by simp
qed

text \<open>\<open>strings.HasPrefix\<close> and \<open>strings.Index\<close> (\<open>None\<close> is Go's \<open>-1\<close>).\<close>

fun HasPrefix :: "string \<Rightarrow> string \<Rightarrow> bool" where
  "HasPrefix s [] = True"
| "HasPrefix [] (p # ps) = False"
| "HasPrefix (c # cs) (p # ps) = (c = p \<and> HasPrefix cs ps)"

fun Index :: "string \<Rightarrow> string \<Rightarrow> nat option" where
  "Index [] substr = (if substr = [] then Some 0 else None)"
| "Index (c # cs) substr =
     (if HasPrefix (c # cs) substr then Some 0 else map_option Suc (Index cs substr))"

text \<open>
  \<open>strings.Split s sep\<close>: the substrings between the occurrences of \<open>sep\<close>, found left to
  right without overlap; a string without \<open>sep\<close> gives the one-element list \<open>[s]\<close>, also
  when it is empty. An empty \<open>sep\<close> splits after each rune.
\<close>

function Split :: "string \<Rightarrow> string \<Rightarrow> string list" where
  "Split s sep =
     (if sep = [] then runes s
      else case Index s sep of
             None \<Rightarrow> [s]
           | Some m \<Rightarrow> take m s # Split (drop (m + length sep) s) sep)"
  by pat_completeness auto
termination
proof (relation "measure (\<lambda>(s, sep). length s)")
  show "wf (measure (\<lambda>(s, sep). length s))" by simp
next
  fix s sep :: string and m :: nat
  assume sep: "sep \<noteq> []" and m: "Index s sep = Some m"
  have "s \<noteq> []" using sep m by (cases s) auto
  then show "((drop (m + length sep) s, sep), s, sep) \<in> measure (\<lambda>(s, sep). length s)"
    using sep by simp
qed

text \<open>
  \<open>strings.Replace s old new (-1)\<close>: every occurrence of \<open>old\<close>, found left to right
  without overlap, is replaced by \<open>new\<close>. An empty \<open>old\<close> matches at the start of the
  string and after each rune.
\<close>

function replaceFrom :: "string \<Rightarrow> string \<Rightarrow> string \<Rightarrow> string" where
  "replaceFrom s old new =
     (if old = [] then s
      else case Index s old of
             None \<Rightarrow> s
           | Some j \<Rightarrow> take j s @ new @ replaceFrom (drop (j + length old) s) old new)"
  by pat_completeness auto
termination
proof (relation "measure (\<lambda>(s, old, new). length s)")
  show "wf (measure (\<lambda>(s, old, new). length s))" by simp
next
  fix s old new :: string and j :: nat
  assume old: "old \<noteq> []" and j: "Index s old = Some j"
  have "s \<noteq> []" using old j by (cases s) auto
  then show "((drop (j + length old) s, old, new), s, old, new)
      \<in> measure (\<lambda>(s, old, new). length s)"
    using old by simp
qed

definition Replace :: "string \<Rightarrow> string \<Rightarrow> string \<Rightarrow> string" where
  "Replace s old new =
     (if old = new then s
      else if old = [] then new @ concat (map (\<lambda>r. r @ new) (runes s))
      else replaceFrom s old new)"

subsection \<open>stringReplacement\<close>

definition formatError :: error where
  "formatError = ''string Replacement pattern is not in the right format '' @
     [CHR 0x27] @ ''$matchingString|$replacementString,$matchingString|$replacementString'' @
     [CHR 0x27]"

text \<open>
  The loop over \<open>replacementArr\<close>. The parameter \<open>imageName\<close> is reassigned by every
  well-formed rule, and it is this variable that the error branch returns.
\<close>

fun replacementLoop :: "string \<Rightarrow> string list \<Rightarrow> string \<times> error option" where
  "replacementLoop imageName [] = (imageName, None)"
| "replacementLoop imageName (pattern # replacementArr) =
     (let replacementItems = Split pattern ''|'' in
      if length replacementItems = 2
      then replacementLoop (Replace imageName (replacementItems ! 0) (replacementItems ! 1))
             replacementArr
      else (imageName, Some formatError))"

definition stringReplacement :: "string \<Rightarrow> string \<Rightarrow> string \<times> error option" where
  "stringReplacement imageName rules =
     (if rules \<noteq> [] then replacementLoop imageName (Split rules '','')
      else (imageName, None))"

subsection \<open>The data model\<close>

text \<open>\<open>time.Duration\<close> is an \<open>int64\<close> of nanoseconds.\<close>

record Config =
  LogLevel :: string
  Workers :: goint
  ImageNameReplacement :: string
  AreaLabels :: string
  TeamsLabels :: string
  FilterLabels :: string
  Severity :: string
  ScanImageTimeout :: "64 word"

record Layer =
  DiffID :: string
  Digest :: string

record Vulnerabilities =
  Description :: string
  Severity :: string
  SeveritySource :: string
  FixedVersion :: string
  InstalledVersion :: string
  VulnerabilityID :: string
  PkgName :: string
  Title :: string
  References :: "string list"
  Layer :: "Layer option"

record TrivyOutputResults =
  Vulnerabilities :: "Vulnerabilities list"
  Type :: string
  Target :: string

text \<open>
  \<open>k8s.ContainerSummary\<close> is declared in another package; the scanner reads its field
  \<open>Image\<close> only. The rest of the struct is the type parameter.
\<close>

record 'k ContainerSummary =
  Image :: string
  Other :: 'k

record VulnerabilitySummary =
  ContainerCount :: goint
  SeverityScore :: goint
  TotalVulnerabilityBySeverity :: "(string \<times> goint) list"

record 'k ScannedImage =
  TrivyOutputResults :: "TrivyOutputResults list"
  Containers :: "'k ContainerSummary list"
  ImageName :: string
  ScanError :: "error option"
  VulnerabilitySummary :: VulnerabilitySummary

subsection \<open>Go maps\<close>

text \<open>Reading a key that is absent gives the zero value of the value type.\<close>

definition mapGet :: "(string \<times> 'v) list \<Rightarrow> 'v \<Rightarrow> string \<Rightarrow> 'v" where
  "mapGet m zero k = (case map_of m k of None \<Rightarrow> zero | Some v \<Rightarrow> v)"

subsection \<open>severityScores, buildVulnerabilitySummary, NewScannedImage\<close>

definition critical :: goint where "critical = 100000000"
definition high :: goint where "high = 1000000"
definition medium :: goint where "medium = 10000"
definition low :: goint where "low = 100"
definition unknown :: goint where "unknown = 1"

definition severityScores :: "(string \<times> goint) list" where
  "severityScores =
     [(''CRITICAL'', critical), (''HIGH'', high), (''MEDIUM'', medium), (''LOW'', low),
      (''UNKNOWN'', unknown)]"

text \<open>The first loop: every key of \<open>severityScores\<close> is set to 0.\<close>

definition zeroSeverityMap :: "(string \<times> goint) list" where
  "zeroSeverityMap =
     foldl (\<lambda>severityMap severity. AList.update severity 0 severityMap) []
       (map fst severityScores)"

text \<open>The second loop, over the targets and over the vulnerabilities of each.\<close>

definition countVulnerability ::
    "(string \<times> goint) list \<Rightarrow> Vulnerabilities \<Rightarrow> (string \<times> goint) list" where
  "countVulnerability severityMap vulnerability =
     AList.update (Severity vulnerability)
       (mapGet severityMap 0 (Severity vulnerability) + 1) severityMap"

definition countTarget ::
    "(string \<times> goint) list \<Rightarrow> TrivyOutputResults \<Rightarrow> (string \<times> goint) list" where
  "countTarget severityMap target = foldl countVulnerability severityMap (Vulnerabilities target)"

text \<open>The third loop: the score, summed over the entries of the histogram.\<close>

definition addScore :: "goint \<Rightarrow> string \<times> goint \<Rightarrow> goint" where
  "addScore severityScore entry =
     (case entry of (severity, cnt) \<Rightarrow>
        let score = mapGet severityScores 0 severity in severityScore + cnt * score)"

definition buildVulnerabilitySummary :: "'k ScannedImage \<Rightarrow> VulnerabilitySummary" where
  "buildVulnerabilitySummary i =
     (let severityMap = foldl countTarget zeroSeverityMap (TrivyOutputResults i);
          severityScore = foldl addScore 0 severityMap
      in \<lparr> ContainerCount = of_nat (length (Containers i)),
           SeverityScore = severityScore,
           TotalVulnerabilityBySeverity = severityMap \<rparr>)"

definition NewScannedImage ::
    "string \<Rightarrow> 'k ContainerSummary list \<Rightarrow> TrivyOutputResults list \<Rightarrow> error option
       \<Rightarrow> 'k ScannedImage" where
  "NewScannedImage imageName containers trivyOutput scanError =
     (let i = \<lparr> TrivyOutputResults = trivyOutput,
                Containers = containers,
                ImageName = imageName,
                ScanError = scanError,
                VulnerabilitySummary =
                  \<lparr> ContainerCount = 0, SeverityScore = 0, TotalVulnerabilityBySeverity = [] \<rparr> \<rparr>
      in i\<lparr> VulnerabilitySummary := buildVulnerabilitySummary i \<rparr>)"

subsection \<open>groupContainersByImageName\<close>

definition groupContainer ::
    "(string \<times> 'k ContainerSummary list) list \<Rightarrow> 'k ContainerSummary
       \<Rightarrow> (string \<times> 'k ContainerSummary list) list" where
  "groupContainer images container =
     (let images1 = (if map_of images (Image container) = None
                     then AList.update (Image container) [] images else images)
      in AList.update (Image container)
           (mapGet images1 [] (Image container) @ [container]) images1)"

definition groupContainersByImageName ::
    "'k ContainerSummary list \<Rightarrow> (string \<times> 'k ContainerSummary list) list" where
  "groupContainersByImageName containers = foldl groupContainer [] containers"

subsection \<open>The collaborators: clients, report generator, and the calls made to them\<close>

text \<open>
  The Kubernetes, Docker and Trivy clients and the report generator are not part of this
  file of the package. Each is a parameter: a function of the arguments and of the state
  \<open>'w\<close> of the world outside, returning its result and the new state. \<open>'c\<close> stands for
  \<open>CisOutput\<close> (the scanner only logs it) and \<open>'r\<close> for \<open>VulnerabilityReport\<close>. A
  pointer result is an \<open>option\<close>.
\<close>

record AreaReport =
  AreaLabelName :: string
  TeamLabelName :: string

record ('w, 'k) KubernetesClient =
  GetContainersInNamespaces :: "string \<Rightarrow> 'w \<Rightarrow> ('k ContainerSummary list \<times> error option) \<times> 'w"

record 'w DockerClient =
  PullImage :: "string \<Rightarrow> 'w \<Rightarrow> error option \<times> 'w"
  RmiImage :: "string \<Rightarrow> 'w \<Rightarrow> error option \<times> 'w"

record ('w, 'c) TrivyClient =
  DownloadDatabase :: "string \<Rightarrow> 'w \<Rightarrow> error option \<times> 'w"
  ScanImage :: "string \<Rightarrow> 'w \<Rightarrow> (TrivyOutputResults list \<times> error option) \<times> 'w"
  TrivyCisScan :: "string \<Rightarrow> 'w \<Rightarrow> ('c option \<times> error option) \<times> 'w"

record ('w, 'k, 'c) Scanner =
  config :: Config
  kubernetesClient :: "('w, 'k) KubernetesClient"
  dockerClient :: "'w DockerClient"
  trivyClient :: "('w, 'c) TrivyClient"

type_synonym ('w, 'k, 'r) reportGenerator =
  "AreaReport \<Rightarrow> 'k ScannedImage list \<Rightarrow> 'w \<Rightarrow> ('r option \<times> error option) \<times> 'w"

text \<open>
  The run state is the state of the world together with the calls made so far, oldest
  first, so that what was called, with what and how often can be stated.
\<close>

datatype 'k call =
    GetContainersInNamespacesCall string
  | DownloadDatabaseCall string
  | PullImageCall string
  | ScanImageCall string
  | RmiImageCall string
  | CisScanCall string
  | GenerateVulnerabilityReportCall AreaReport "'k ScannedImage list"

type_synonym ('w, 'k) run = "'w \<times> 'k call list"

definition invoke :: "'k call \<Rightarrow> ('w \<Rightarrow> 'a \<times> 'w) \<Rightarrow> ('w, 'k) run \<Rightarrow> 'a \<times> ('w, 'k) run" where
  "invoke c f st = (case f (fst st) of (res, w) \<Rightarrow> (res, (w, snd st @ [c])))"

subsection \<open>scanImages\<close>

text \<open>
  The worker pool (package \<open>workerpool\<close>) is not part of the repository. It is a
  parameter as well: a function of the number of workers, of the submitted functions in
  the order of submission and of the state at the first submission (the collected
  \<open>scannedImages\<close> and the run state), returning the state in which \<open>StopWait\<close> returns.
  In what order the pool runs the submitted functions, how it interleaves them, and what
  appends made at the same time leave in \<open>scannedImages\<close>, is the pool's: nothing is
  assumed of it.
\<close>

type_synonym ('w, 'k) task =
  "'k ScannedImage list \<times> ('w, 'k) run \<Rightarrow> 'k ScannedImage list \<times> ('w, 'k) run"

type_synonym ('w, 'k) workerPool =
  "goint \<Rightarrow> ('w, 'k) task list \<Rightarrow> 'k ScannedImage list \<times> ('w, 'k) run
     \<Rightarrow> 'k ScannedImage list \<times> ('w, 'k) run"

text \<open>
  What a pool does when it runs one function at a time, in the order of submission, as a
  pool of one worker does.
\<close>

definition sequentialPool :: "('a \<Rightarrow> 'a) list \<Rightarrow> 'a \<Rightarrow> 'a" where
  "sequentialPool tasks acc = foldl (\<lambda>acc task. task acc) acc tasks"

text \<open>
  The function submitted to the worker pool for one image, as it runs on the state
  \<open>acc\<close> when nothing else runs meanwhile.
\<close>

definition worker ::
    "('w, 'k, 'c) Scanner \<Rightarrow> string \<Rightarrow> 'k ContainerSummary list
       \<Rightarrow> 'k ScannedImage list \<times> ('w, 'k) run \<Rightarrow> 'k ScannedImage list \<times> ('w, 'k) run" where
  "worker s resolvedImageName resolvedContainers acc =
     (case acc of (scannedImages, st) \<Rightarrow>
      case invoke (PullImageCall resolvedImageName)
             (PullImage (dockerClient s) resolvedImageName) st of (pullErr, st1) \<Rightarrow>
      case invoke (ScanImageCall resolvedImageName)
             (ScanImage (trivyClient s) resolvedImageName) st1 of ((trivyOutput, err), st2) \<Rightarrow>
      let scanError =
            (case err of
               None \<Rightarrow> None
             | Some e \<Rightarrow>
                 Some (''error executing trivy for image '' @ resolvedImageName @ '': '' @ e));
          scannedImages1 =
            scannedImages @
              [NewScannedImage resolvedImageName resolvedContainers trivyOutput scanError]
      in case invoke (RmiImageCall resolvedImageName)
                (RmiImage (dockerClient s) resolvedImageName) st2 of (rmiErr, st3) \<Rightarrow>
           (scannedImages1, st3))"

text \<open>
  One round of the loop over \<open>imageList\<close>: the name is resolved, the error of the
  resolution is only logged, and the function submitted runs on the name that
  \<open>stringReplacement\<close> returned. \<open>submitImage s acc entry\<close> is that function applied to
  the state \<open>acc\<close>.
\<close>

definition submitImage ::
    "('w, 'k, 'c) Scanner \<Rightarrow> 'k ScannedImage list \<times> ('w, 'k) run
       \<Rightarrow> string \<times> 'k ContainerSummary list \<Rightarrow> 'k ScannedImage list \<times> ('w, 'k) run" where
  "submitImage s acc entry =
     (case entry of (imageName, containers) \<Rightarrow>
      let resolvedContainers = containers in
      case stringReplacement imageName (ImageNameReplacement (config s)) of
        (resolvedImageName, err) \<Rightarrow> worker s resolvedImageName resolvedContainers acc)"

text \<open>
  \<open>scanImages\<close> hands the pool the number of workers of the configuration and one
  function for each entry of \<open>imageList\<close>, and returns what the pool has collected when
  \<open>StopWait\<close> returns.
\<close>

definition scanImages ::
    "('w, 'k) workerPool \<Rightarrow> ('w, 'k, 'c) Scanner \<Rightarrow> (string \<times> 'k ContainerSummary list) list
       \<Rightarrow> ('w, 'k) run \<Rightarrow> (error + 'k ScannedImage list) \<times> ('w, 'k) run" where
  "scanImages pool s imageList st =
     (case invoke (DownloadDatabaseCall ''image'')
             (DownloadDatabase (trivyClient s) ''image'') st of
        (Some e, st1) \<Rightarrow> (Inl (''failed to download trivy db: '' @ e), st1)
      | (None, st1) \<Rightarrow>
          (case pool (Workers (config s)) (map (\<lambda>entry acc. submitImage s acc entry) imageList)
                  ([], st1) of
             (scannedImages, st2) \<Rightarrow> (Inr scannedImages, st2)))"

subsection \<open>ScanImages and CisScan\<close>

definition ScanImages ::
    "('w, 'k, 'r) reportGenerator \<Rightarrow> ('w, 'k) workerPool \<Rightarrow> ('w, 'k, 'c) Scanner
       \<Rightarrow> ('w, 'k) run \<Rightarrow> ('r option \<times> error option) \<times> ('w, 'k) run" where
  "ScanImages GenerateVulnerabilityReport pool s st =
     (case invoke (GetContainersInNamespacesCall (FilterLabels (config s)))
             (GetContainersInNamespaces (kubernetesClient s) (FilterLabels (config s))) st of
        ((containers, Some e), st1) \<Rightarrow> ((None, Some e), st1)
      | ((containers, None), st1) \<Rightarrow>
          (let containersByImageName = groupContainersByImageName containers in
           case scanImages pool s containersByImageName st1 of
             (Inl e, st2) \<Rightarrow> ((None, Some e), st2)
           | (Inr scannedImages, st2) \<Rightarrow>
               (let reportGenerator =
                      \<lparr> AreaLabelName = AreaLabels (config s),
                        TeamLabelName = TeamsLabels (config s) \<rparr>
                in invoke (GenerateVulnerabilityReportCall reportGenerator scannedImages)
                     (GenerateVulnerabilityReport reportGenerator scannedImages) st2)))"

text \<open>
  \<open>CisScan\<close> logs the output of the engine and passes \<open>nil\<close>, the empty list of scanned
  images, to the report generator.
\<close>

definition CisScan ::
    "('w, 'k, 'r) reportGenerator \<Rightarrow> ('w, 'k, 'c) Scanner \<Rightarrow> string \<Rightarrow> ('w, 'k) run
       \<Rightarrow> ('r option \<times> error option) \<times> ('w, 'k) run" where
  "CisScan GenerateVulnerabilityReport s benchmark st =
     (case invoke (CisScanCall benchmark) (TrivyCisScan (trivyClient s) benchmark) st of
        ((trivyOutput, Some e), st1) \<Rightarrow>
          ((None, Some (''error executing trivy cluster scan: '' @ e)), st1)
      | ((trivyOutput, None), st1) \<Rightarrow>
          (let reportGenerator =
                 \<lparr> AreaLabelName = AreaLabels (config s),
                   TeamLabelName = TeamsLabels (config s) \<rparr>
           in invoke (GenerateVulnerabilityReportCall reportGenerator [])
                (GenerateVulnerabilityReport reportGenerator []) st1))"

section \<open>Notions used to state the properties\<close>

text \<open>
  A rule is accepted by \<open>stringReplacement\<close> when splitting it at \<open>|\<close> gives two parts;
  \<open>applyRule\<close> is the replacement that an accepted rule performs.
\<close>

definition wellFormed :: "string \<Rightarrow> bool" where
  "wellFormed pattern = (length (Split pattern ''|'') = 2)"

definition applyRule :: "string \<Rightarrow> string \<Rightarrow> string" where
  "applyRule imageName pattern =
     Replace imageName (Split pattern ''|'' ! 0) (Split pattern ''|'' ! 1)"

text \<open>
  \<open>strings.Join\<close>, which the scanner does not call, says what \<open>Replace\<close> computes: the
  pieces of the string between the occurrences of \<open>old\<close>, joined by \<open>new\<close>.
\<close>

fun Join :: "string list \<Rightarrow> string \<Rightarrow> string" where
  "Join [] sep = []"
| "Join [x] sep = x"
| "Join (x # y # xs) sep = x @ sep @ Join (y # xs) sep"

text \<open>The findings of a scan output, target after target, and their severity strings.\<close>

definition findings :: "TrivyOutputResults list \<Rightarrow> Vulnerabilities list" where
  "findings trivyOutput = concat (map Vulnerabilities trivyOutput)"

definition severities :: "TrivyOutputResults list \<Rightarrow> string list" where
  "severities trivyOutput = map Severity (findings trivyOutput)"

definition knownSeverities :: "string set" where
  "knownSeverities = {''CRITICAL'', ''HIGH'', ''MEDIUM'', ''LOW'', ''UNKNOWN''}"

text \<open>The scan output without the findings of one severity.\<close>

definition withoutSeverity :: "string \<Rightarrow> TrivyOutputResults list \<Rightarrow> TrivyOutputResults list" where
  "withoutSeverity sev trivyOutput =
     map (\<lambda>target. target\<lparr> Vulnerabilities :=
            filter (\<lambda>v. Severity v \<noteq> sev) (Vulnerabilities target) \<rparr>) trivyOutput"




subsection \<open>Concrete inputs\<close>

definition finding :: "string \<Rightarrow> Vulnerabilities" where
  "finding sev =
     \<lparr> Description = [], Severity = sev, SeveritySource = [], FixedVersion = [],
       InstalledVersion = [], VulnerabilityID = [], PkgName = [], Title = [],
       References = [], Layer = None \<rparr>"

definition target :: "string list \<Rightarrow> TrivyOutputResults" where
  "target sevs = \<lparr> Vulnerabilities = map finding sevs, Type = ''debian'', Target = ''os'' \<rparr>"

definition container :: "string \<Rightarrow> nat \<Rightarrow> nat ContainerSummary" where
  "container img n = \<lparr> Image = img, Other = n \<rparr>"

text \<open>
  A scanner whose world is the number of calls made so far. The database download fails
  when \<open>dbFails\<close> is set; every pull and every removal fails; the scan of an image whose
  name starts with \<open>bad\<close> fails and returns no output, the scan of an image whose name
  starts with \<open>slow\<close> fails and returns one CRITICAL finding with the error, any other
  scan reports one CRITICAL finding; the compliance engine fails on the benchmark
  \<open>k8s-cis\<close>.
\<close>

definition exampleConfig :: "string \<Rightarrow> Config" where
  "exampleConfig rules =
     \<lparr> LogLevel = ''info'', Workers = 1, ImageNameReplacement = rules, AreaLabels = ''area'',
       TeamsLabels = ''team'', FilterLabels = [], Config.Severity = ''HIGH'',
       ScanImageTimeout = 0 \<rparr>"

definition exampleScanner :: "bool \<Rightarrow> string \<Rightarrow> (nat, nat, string) Scanner" where
  "exampleScanner dbFails rules =
     \<lparr> config = exampleConfig rules,
       kubernetesClient =
         \<lparr> GetContainersInNamespaces = (\<lambda>selector w. (([], None), Suc w)) \<rparr>,
       dockerClient =
         \<lparr> PullImage = (\<lambda>name w. (Some ''pull failed'', Suc w)),
           RmiImage = (\<lambda>name w. (Some ''rmi failed'', Suc w)) \<rparr>,
       trivyClient =
         \<lparr> DownloadDatabase = (\<lambda>kind w. (if dbFails then Some ''no network'' else None, Suc w)),
           ScanImage = (\<lambda>name w.
             (if HasPrefix name ''bad'' then ([], Some ''exit status 1'')
              else if HasPrefix name ''slow'' then ([target [''CRITICAL'']], Some ''timeout'')
              else ([target [''CRITICAL'']], None), Suc w)),
           TrivyCisScan = (\<lambda>benchmark w.
             (if benchmark = ''k8s-cis'' then (None, Some ''exit status 1'')
              else (Some ''passed'', None), Suc w)) \<rparr> \<rparr>"

text \<open>The pool of the examples runs one function at a time, whatever the number of workers.\<close>

definition oneWorkerPool :: "goint \<Rightarrow> ('a \<Rightarrow> 'a) list \<Rightarrow> 'a \<Rightarrow> 'a" where
  "oneWorkerPool workers = sequentialPool"

definition exampleGenerator :: "(nat, nat, nat) reportGenerator" where
  "exampleGenerator reportGenerator scannedImages w = ((Some (length scannedImages), None), Suc w)"

declare Split.simps [simp del] replaceFrom.simps [simp del] runes.simps [simp del]

section \<open>Properties\<close>

subsection \<open>Splitting and the rewrite loop\<close>

lemma replacementLoop_eq:
  "replacementLoop imageName ps =
     (foldl applyRule imageName (takeWhile wellFormed ps),
      if list_all wellFormed ps then None else Some formatError)"
  by (induction ps arbitrary: imageName) (simp_all add: wellFormed_def applyRule_def Let_def)

lemma Index_char_None: "Index s [c] = None \<longleftrightarrow> c \<notin> set s"
  by (induction s) auto

lemma Index_char_Some:
  "Index s [c] = Some m \<Longrightarrow> m < length s \<and> s ! m = c \<and> c \<notin> set (take m s)"
proof (induction s arbitrary: m)
  case Nil
  then show ?case by simp
next
  case (Cons a s)
  show ?case
  proof (cases "a = c")
    case True
    with Cons.prems show ?thesis by simp
  next
    case False
    with Cons.prems obtain k where k: "Index s [c] = Some k" "m = Suc k" by auto
    from Cons.IH[OF k(1)] k(2) False show ?thesis by simp
  qed
qed

lemma count_list_notin: "c \<notin> set xs \<Longrightarrow> count_list xs c = 0"
  by (induction xs) auto

lemma count_list_split_at:
  assumes "m < length s" "s ! m = c" "c \<notin> set (take m s)"
  shows "count_list s c = Suc (count_list (drop (Suc m) s) c)"
proof -
  have "s = take m s @ c # drop (Suc m) s"
    using id_take_nth_drop[OF assms(1)] assms(2) by simp
  then have "count_list s c = count_list (take m s @ c # drop (Suc m) s) c" by simp
  also have "\<dots> = Suc (count_list (drop (Suc m) s) c)"
    using assms(3) by (simp add: count_list_notin)
  finally show ?thesis .
qed

lemma length_Split_char: "length (Split s [c]) = Suc (count_list s c)"
proof (induction s "[c]" rule: Split.induct)
  case (1 s)
  show ?case
  proof (cases "Index s [c]")
    case None
    then have "c \<notin> set s" by (simp add: Index_char_None)
    with None show ?thesis by (simp add: Split.simps[of s] count_list_notin)
  next
    case (Some m)
    from Index_char_Some[OF Some] have "count_list s c = Suc (count_list (drop (Suc m) s) c)"
      by (simp add: count_list_split_at)
    with 1 Some show ?thesis by (simp add: Split.simps[of s])
  qed
qed

lemma wellFormed_iff: "wellFormed pattern \<longleftrightarrow> count_list pattern CHR ''|'' = 1"
  by (simp add: wellFormed_def length_Split_char)

lemma HasPrefix_iff: "HasPrefix s p \<longleftrightarrow> (\<exists>r. s = p @ r)"
  by (induction s p rule: HasPrefix.induct) auto

lemma Index_Some:
  "Index s sep = Some m \<Longrightarrow> s = take m s @ sep @ drop (m + length sep) s"
proof (induction s arbitrary: m)
  case Nil
  then show ?case by (simp split: if_splits)
next
  case (Cons c cs)
  show ?case
  proof (cases "HasPrefix (c # cs) sep")
    case True
    with Cons.prems have "m = 0" by simp
    with True show ?thesis by (auto simp: HasPrefix_iff)
  next
    case False
    with Cons.prems obtain k where k: "Index cs sep = Some k" "m = Suc k" by auto
    from Cons.IH[OF k(1)] k(2) show ?thesis by simp
  qed
qed

lemma Split_nonempty: "sep \<noteq> [] \<Longrightarrow> Split s sep \<noteq> []"
  by (subst Split.simps) (simp split: option.splits)

lemma Split_Cons:
  assumes "sep \<noteq> []"
  obtains p ps where "Split s sep = p # ps"
  using Split_nonempty[OF assms, of s] by (cases "Split s sep") auto

lemma replaceFrom_Join_Split:
  "old \<noteq> [] \<Longrightarrow> replaceFrom s old new = Join (Split s old) new"
proof (induction s old rule: Split.induct)
  case (1 s sep)
  show ?case
  proof (cases "Index s sep")
    case None
    with 1 show ?thesis by (simp add: replaceFrom.simps[of s] Split.simps[of s])
  next
    case (Some m)
    obtain p ps where ps: "Split (drop (m + length sep) s) sep = p # ps"
      using "1.prems" by (rule Split_Cons)
    from 1 Some ps show ?thesis
      by (simp add: replaceFrom.simps[of s] Split.simps[of s])
  qed
qed

lemma Join_Split: "sep \<noteq> [] \<Longrightarrow> Join (Split s sep) sep = s"
proof (induction s sep rule: Split.induct)
  case (1 s sep)
  show ?case
  proof (cases "Index s sep")
    case None
    with 1 show ?thesis by (simp add: Split.simps[of s])
  next
    case (Some m)
    obtain p ps where ps: "Split (drop (m + length sep) s) sep = p # ps"
      using "1.prems" by (rule Split_Cons)
    have "Join (Split s sep) sep = take m s @ sep @ Join (p # ps) sep"
      using "1.prems" Some ps by (simp add: Split.simps[of s])
    also have "\<dots> = take m s @ sep @ drop (m + length sep) s"
      using "1.IH"[OF "1.prems" Some "1.prems"] ps by simp
    also have "\<dots> = s" using Index_Some[OF Some] by simp
    finally show ?thesis .
  qed
qed

lemma Replace_Join_Split: "old \<noteq> [] \<Longrightarrow> Replace s old new = Join (Split s old) new"
  by (cases "old = new") (auto simp add: Replace_def replaceFrom_Join_Split Join_Split)

subsection \<open>The name resolver\<close>

text \<open>
  Claim C1, as the code has it. A rule is malformed when it does not hold exactly one
  \<open>|\<close> (\<open>wellFormed_iff\<close>); an empty match or an empty replacement is accepted. When a
  non-empty rule string holds a malformed rule, \<open>stringReplacement\<close> returns the format
  error together with the name as rewritten by the rules that stand before the first
  malformed one, which is the input name only if those rules leave it unchanged. The
  loop of \<open>scanImages\<close> runs the task of the image on this returned name.
\<close>

theorem stringReplacement_malformed_rule:
  assumes "rules \<noteq> []" and "\<not> list_all wellFormed (Split rules '','')"
  shows "stringReplacement imageName rules =
           (foldl applyRule imageName (takeWhile wellFormed (Split rules '','')),
            Some formatError) \<and>
         (ImageNameReplacement (config s) = rules \<longrightarrow>
            submitImage s acc (imageName, containers) =
              worker s (foldl applyRule imageName (takeWhile wellFormed (Split rules '','')))
                containers acc)"
  using assms by (simp add: stringReplacement_def replacementLoop_eq submitImage_def)

text \<open>An instance: the second of three rules is malformed, the first has been applied.\<close>

theorem stringReplacement_malformed_rule_witness:
  "''foo|bar,oops,bar|baz'' \<noteq> [] \<and>
   \<not> list_all wellFormed (Split ''foo|bar,oops,bar|baz'' '','') \<and>
   stringReplacement ''registry/foo:latest'' ''foo|bar,oops,bar|baz'' =
     (''registry/bar:latest'', Some formatError) \<and>
   ImageNameReplacement (config (exampleScanner False ''foo|bar,oops,bar|baz'')) =
     ''foo|bar,oops,bar|baz'' \<and>
   submitImage (exampleScanner False ''foo|bar,oops,bar|baz'') ([], (0, []))
       (''registry/foo:latest'', [container ''registry/foo:latest'' 1]) =
     worker (exampleScanner False ''foo|bar,oops,bar|baz'') ''registry/bar:latest''
       [container ''registry/foo:latest'' 1] ([], (0, []))"
proof -
  have h1: "''foo|bar,oops,bar|baz'' \<noteq> []" by simp
  have h2: "\<not> list_all wellFormed (Split ''foo|bar,oops,bar|baz'' '','')" by code_simp
  have e: "foldl applyRule ''registry/foo:latest''
             (takeWhile wellFormed (Split ''foo|bar,oops,bar|baz'' '','')) = ''registry/bar:latest''"
    by code_simp
  have c: "ImageNameReplacement (config (exampleScanner False ''foo|bar,oops,bar|baz'')) =
     ''foo|bar,oops,bar|baz''"
    by (simp add: exampleScanner_def exampleConfig_def)
  from stringReplacement_malformed_rule[OF h1 h2, of "''registry/foo:latest''"
      "exampleScanner False ''foo|bar,oops,bar|baz''" "([], (0, []))"
      "[container ''registry/foo:latest'' 1]"] h1 h2 c
  show ?thesis by (simp only: e simp_thms)
qed

text \<open>
  The name is not returned unchanged in general: on the name \<open>a\<close> and the rules
  \<open>a|b,c\<close>, whose second rule is malformed, the result is \<open>b\<close> with the error.
\<close>

theorem stringReplacement_original_name_counterexample:
  "''c'' \<in> set (Split ''a|b,c'' '','') \<and> length (Split ''c'' ''|'') \<noteq> 2 \<and>
   stringReplacement ''a'' ''a|b,c'' = (''b'', Some formatError) \<and> ''b'' \<noteq> ''a''"
  by code_simp

text \<open>
  Claim C5. When every rule of a non-empty rule string is well-formed, the result is the
  rules applied one after the other, in the listed order, each to the output of the one
  before, with no error. A rule with the parts \<open>old\<close> and \<open>new\<close> performs
  \<open>Replace name old new\<close>, which for a non-empty \<open>old\<close> puts \<open>new\<close> in the place of
  every occurrence of \<open>old\<close>: the result is the pieces between the occurrences, joined
  by \<open>new\<close>. The rules \<open>foo|bar,bar|baz\<close> turn \<open>registry/foo:latest\<close> into
  \<open>registry/baz:latest\<close>.
\<close>

theorem stringReplacement_cumulative:
  "(rules \<noteq> [] \<and> list_all wellFormed (Split rules '','') \<longrightarrow>
      stringReplacement imageName rules = (foldl applyRule imageName (Split rules '',''), None)) \<and>
   (\<forall>name pattern old new. Split pattern ''|'' = [old, new] \<longrightarrow>
      applyRule name pattern = Replace name old new) \<and>
   (\<forall>name old new. old \<noteq> [] \<longrightarrow> Replace name old new = Join (Split name old) new) \<and>
   stringReplacement ''registry/foo:latest'' ''foo|bar,bar|baz'' = (''registry/baz:latest'', None)"
proof -
  have tw: "list_all wellFormed ps \<Longrightarrow> takeWhile wellFormed ps = ps" for ps
    by (induction ps) auto
  have a: "rules \<noteq> [] \<and> list_all wellFormed (Split rules '','') \<longrightarrow>
      stringReplacement imageName rules = (foldl applyRule imageName (Split rules '',''), None)"
    by (simp add: stringReplacement_def replacementLoop_eq tw)
  have b: "\<forall>name pattern old new. Split pattern ''|'' = [old, new] \<longrightarrow>
      applyRule name pattern = Replace name old new"
    by (simp add: applyRule_def)
  have j: "\<forall>name old new. old \<noteq> [] \<longrightarrow> Replace name old new = Join (Split name old) new"
    by (simp add: Replace_Join_Split)
  have c: "stringReplacement ''registry/foo:latest'' ''foo|bar,bar|baz'' =
      (''registry/baz:latest'', None)"
    by code_simp
  from a b j c show ?thesis by (intro conjI)
qed

text \<open>An instance where the second rule rewrites what the first one left.\<close>

theorem stringReplacement_cumulative_witness:
  "''b|c,a|bb'' \<noteq> [] \<and> list_all wellFormed (Split ''b|c,a|bb'' '','') \<and>
   stringReplacement ''abba'' ''b|c,a|bb'' = (''bbccbb'', None) \<and>
   Split ''b|c'' ''|'' = [''b'', ''c''] \<and>
   applyRule ''abba'' ''b|c'' = Replace ''abba'' ''b'' ''c'' \<and>
   ''b'' \<noteq> [] \<and> Split ''abba'' ''b'' = [''a'', [], ''a''] \<and>
   Replace ''abba'' ''b'' ''c'' = ''acca''"
proof -
  have h: "''b|c,a|bb'' \<noteq> [] \<and> list_all wellFormed (Split ''b|c,a|bb'' '','')" by code_simp
  have e: "foldl applyRule ''abba'' (Split ''b|c,a|bb'' '','') = ''bbccbb''" by code_simp
  have p: "Split ''b|c'' ''|'' = [''b'', ''c'']" by code_simp
  have q: "Split ''abba'' ''b'' = [''a'', [], ''a'']" by code_simp
  from stringReplacement_cumulative[of "''b|c,a|bb''" "''abba''"] h e p q
  show ?thesis by simp
qed

subsection \<open>The histogram and the score\<close>

lemma zeroSeverityMap_eq:
  "zeroSeverityMap =
     [(''CRITICAL'', 0), (''HIGH'', 0), (''MEDIUM'', 0), (''LOW'', 0), (''UNKNOWN'', 0)]"
  by (simp add: zeroSeverityMap_def severityScores_def)

lemma foldl_countTarget:
  "foldl countTarget m rs = foldl countVulnerability m (findings rs)"
  by (induction rs arbitrary: m) (simp_all add: findings_def countTarget_def)

lemma map_of_mapGet: "k \<in> fst ` set m \<Longrightarrow> map_of m k = Some (mapGet m zero k)"
  by (cases "map_of m k") (auto simp: mapGet_def map_of_eq_None_iff)

lemma mapGet_absent: "k \<notin> fst ` set m \<Longrightarrow> mapGet m zero k = zero"
proof -
  assume "k \<notin> fst ` set m"
  then have "map_of m k = None" by (simp add: map_of_eq_None_iff)
  then show ?thesis by (simp add: mapGet_def)
qed

lemma mapGet_countVulnerability:
  "mapGet (countVulnerability m v) 0 k = mapGet m 0 k + (if Severity v = k then 1 else 0)"
  by (simp add: countVulnerability_def mapGet_def update_conv')

lemma keys_countVulnerability:
  "fst ` set (countVulnerability m v) = insert (Severity v) (fst ` set m)"
  by (simp add: countVulnerability_def dom_update)

lemma distinct_countVulnerability:
  "distinct (map fst m) \<Longrightarrow> distinct (map fst (countVulnerability m v))"
  by (simp add: countVulnerability_def distinct_update)

lemma mapGet_counted:
  "mapGet (foldl countVulnerability m vs) 0 k =
     mapGet m 0 k + of_nat (count_list (map Severity vs) k)"
  by (induction vs arbitrary: m) (simp_all add: mapGet_countVulnerability)

lemma keys_counted:
  "fst ` set (foldl countVulnerability m vs) = fst ` set m \<union> Severity ` set vs"
  by (induction vs arbitrary: m) (simp_all add: keys_countVulnerability)

lemma distinct_counted:
  "distinct (map fst m) \<Longrightarrow> distinct (map fst (foldl countVulnerability m vs))"
  by (induction vs arbitrary: m) (simp_all add: distinct_countVulnerability)

lemma foldl_addScore:
  "foldl addScore a m = a + (\<Sum>(k, c)\<leftarrow>m. c * mapGet severityScores 0 k)"
  by (induction m arbitrary: a) (auto simp: addScore_def Let_def add.assoc)

lemma score_countVulnerability:
  "(\<Sum>(k, c)\<leftarrow>countVulnerability m v. c * mapGet severityScores 0 k) =
     (\<Sum>(k, c)\<leftarrow>m. c * mapGet severityScores 0 k) + mapGet severityScores 0 (Severity v)"
proof -
  have "(\<Sum>(k, c)\<leftarrow>AList.update s (mapGet m 0 s + 1) m. c * mapGet severityScores 0 k) =
        (\<Sum>(k, c)\<leftarrow>m. c * mapGet severityScores 0 k) + mapGet severityScores 0 s" for s
    by (induction m) (auto simp: mapGet_def distrib_right)
  then show ?thesis by (simp add: countVulnerability_def)
qed

lemma score_counted:
  "(\<Sum>(k, c)\<leftarrow>foldl countVulnerability m vs. c * mapGet severityScores 0 k) =
     (\<Sum>(k, c)\<leftarrow>m. c * mapGet severityScores 0 k) +
     (\<Sum>v\<leftarrow>vs. mapGet severityScores 0 (Severity v))"
  by (induction vs arbitrary: m) (simp_all add: score_countVulnerability add.assoc)

lemma histogram_eq:
  "TotalVulnerabilityBySeverity (buildVulnerabilitySummary i) =
     foldl countVulnerability zeroSeverityMap (findings (TrivyOutputResults i))"
  by (simp add: buildVulnerabilitySummary_def Let_def foldl_countTarget)

lemma SeverityScore_eq:
  "SeverityScore (buildVulnerabilitySummary i) =
     (\<Sum>sev\<leftarrow>severities (TrivyOutputResults i). mapGet severityScores 0 sev)"
  by (simp add: buildVulnerabilitySummary_def Let_def foldl_countTarget foldl_addScore
      score_counted zeroSeverityMap_eq severities_def comp_def)

lemma card_knownSeverities: "card knownSeverities = 5"
  by (simp add: knownSeverities_def)

lemma finite_knownSeverities: "finite knownSeverities"
  by (simp add: knownSeverities_def)

lemma keys_zeroSeverityMap: "fst ` set zeroSeverityMap = knownSeverities"
  by (auto simp add: zeroSeverityMap_eq knownSeverities_def)

lemma histogram_keys:
  "fst ` set (TotalVulnerabilityBySeverity (buildVulnerabilitySummary i)) =
     knownSeverities \<union> set (severities (TrivyOutputResults i))"
  by (simp add: histogram_eq keys_counted keys_zeroSeverityMap severities_def)

lemma histogram_distinct:
  "distinct (map fst (TotalVulnerabilityBySeverity (buildVulnerabilitySummary i)))"
  by (simp add: histogram_eq distinct_counted zeroSeverityMap_eq)

lemma histogram_length:
  "length (TotalVulnerabilityBySeverity (buildVulnerabilitySummary i)) =
     card (knownSeverities \<union> set (severities (TrivyOutputResults i)))"
proof -
  have "length (TotalVulnerabilityBySeverity (buildVulnerabilitySummary i)) =
        length (map fst (TotalVulnerabilityBySeverity (buildVulnerabilitySummary i)))"
    by simp
  also have "\<dots> = card (set (map fst (TotalVulnerabilityBySeverity (buildVulnerabilitySummary i))))"
    using histogram_distinct[of i] by (simp only: distinct_card)
  finally show ?thesis by (simp add: histogram_keys)
qed

lemma histogram_count:
  assumes "sev \<in> knownSeverities \<union> set (severities (TrivyOutputResults i))"
  shows "map_of (TotalVulnerabilityBySeverity (buildVulnerabilitySummary i)) sev =
           Some (of_nat (count_list (severities (TrivyOutputResults i)) sev))"
proof -
  let ?h = "TotalVulnerabilityBySeverity (buildVulnerabilitySummary i)"
  from assms have "sev \<in> fst ` set ?h" by (simp add: histogram_keys)
  then have "map_of ?h sev = Some (mapGet ?h 0 sev)" by (rule map_of_mapGet)
  moreover have "mapGet zeroSeverityMap 0 sev = 0"
    by (simp add: zeroSeverityMap_eq mapGet_def)
  ultimately show ?thesis
    by (simp add: histogram_eq mapGet_counted severities_def)
qed

lemma weight_unknown: "sev \<notin> knownSeverities \<Longrightarrow> mapGet severityScores 0 sev = 0"
  by (simp add: knownSeverities_def severityScores_def mapGet_def)

lemma severities_withoutSeverity:
  "severities (withoutSeverity sev rs) = filter (\<lambda>x. x \<noteq> sev) (severities rs)"
  by (induction rs) (simp_all add: severities_def findings_def withoutSeverity_def filter_map comp_def)

lemma sum_list_filter_zero:
  fixes f :: "'a \<Rightarrow> goint"
  shows "f s = 0 \<Longrightarrow> (\<Sum>x\<leftarrow>filter (\<lambda>x. x \<noteq> s) xs. f x) = (\<Sum>x\<leftarrow>xs. f x)"
  by (induction xs) auto

lemma count_list_pos: "x \<in> set xs \<Longrightarrow> 0 < count_list xs x"
  by (induction xs) auto

lemma NewScannedImage_simps:
  "TrivyOutputResults (NewScannedImage n cs out e) = out"
  "Containers (NewScannedImage n cs out e) = cs"
  "ImageName (NewScannedImage n cs out e) = n"
  "ScanError (NewScannedImage n cs out e) = e"
  by (simp_all add: NewScannedImage_def Let_def)

lemma findings_target: "findings [target sevs] = map finding sevs"
  by (simp add: findings_def target_def)

lemma severities_target: "severities [target sevs] = sevs"
  by (simp add: severities_def findings_target finding_def comp_def)

lemma weight_eq:
  "mapGet severityScores 0 sev =
     (if sev = ''CRITICAL'' then 100000000 else if sev = ''HIGH'' then 1000000
      else if sev = ''MEDIUM'' then 10000 else if sev = ''LOW'' then 100
      else if sev = ''UNKNOWN'' then 1 else 0)"
  by (simp add: mapGet_def severityScores_def critical_def high_def medium_def low_def
      unknown_def)

lemma unat_weight_le: "unat (mapGet severityScores 0 sev) \<le> 100000000"
  by (simp add: weight_eq)

lemma unat_weight_lower:
  "sev \<in> {''HIGH'', ''MEDIUM'', ''LOW'', ''UNKNOWN''} \<Longrightarrow>
     unat (mapGet severityScores 0 sev) \<le> 1000000"
  by (auto simp add: weight_eq)

lemma unat_weight_critical: "unat (mapGet severityScores 0 ''CRITICAL'') = 100000000"
  by (simp add: weight_eq)

lemma sum_list_unat:
  fixes f :: "'a \<Rightarrow> goint"
  shows "(\<Sum>x\<leftarrow>xs. f x) = of_nat (\<Sum>x\<leftarrow>xs. unat (f x))"
  by (induction xs) simp_all

lemma sum_list_le_length:
  fixes f :: "'a \<Rightarrow> nat"
  shows "(\<And>x. x \<in> set xs \<Longrightarrow> f x \<le> c) \<Longrightarrow> (\<Sum>x\<leftarrow>xs. f x) \<le> c * length xs"
proof (induction xs)
  case Nil
  then show ?case by simp
next
  case (Cons a xs)
  have "f a \<le> c" using Cons.prems by simp
  moreover have "(\<Sum>x\<leftarrow>xs. f x) \<le> c * length xs" using Cons by simp
  ultimately show ?case by simp
qed

lemma sint_of_nat_small:
  "n < 2 ^ 63 \<Longrightarrow> sint (of_nat n :: goint) = int n"
  by (simp add: signed_of_nat signed_take_bit_int_eq_self)

lemma sint_SeverityScore:
  assumes "length (findings (TrivyOutputResults i)) \<le> 92233720368"
  shows "sint (SeverityScore (buildVulnerabilitySummary i)) =
           int (\<Sum>sev\<leftarrow>severities (TrivyOutputResults i). unat (mapGet severityScores 0 sev))"
proof -
  let ?sevs = "severities (TrivyOutputResults i)"
  let ?n = "\<Sum>sev\<leftarrow>?sevs. unat (mapGet severityScores 0 sev)"
  have "?n \<le> 100000000 * length ?sevs"
    by (rule sum_list_le_length) (rule unat_weight_le)
  also have "\<dots> \<le> 100000000 * 92233720368"
    using assms by (simp add: severities_def)
  finally have "?n < 2 ^ 63" by simp
  then have "sint (of_nat ?n :: goint) = int ?n" by (rule sint_of_nat_small)
  moreover have "SeverityScore (buildVulnerabilitySummary i) = of_nat ?n"
    by (simp only: SeverityScore_eq sum_list_unat[of "mapGet severityScores 0"])
  ultimately show ?thesis by simp
qed

lemma SeverityScore_target:
  "SeverityScore (buildVulnerabilitySummary (NewScannedImage n cs [target sevs] e)) =
     (\<Sum>sev\<leftarrow>sevs. mapGet severityScores 0 sev)"
  by (simp add: SeverityScore_eq NewScannedImage_simps severities_target)

text \<open>
  Claim C3, as the code has it. The keys of the histogram are distinct and are the five
  known severities together with the severity strings of the findings; every key holds
  the number of findings of that severity (as a Go \<open>int\<close>), which is zero for a known
  severity that no finding has. The histogram has exactly five keys when every finding
  has one of the five known severities.
\<close>

theorem histogram_known_keys:
  "let h = TotalVulnerabilityBySeverity (buildVulnerabilitySummary i);
       sevs = severities (TrivyOutputResults i)
   in distinct (map fst h) \<and>
      fst ` set h = knownSeverities \<union> set sevs \<and>
      (\<forall>sev \<in> knownSeverities \<union> set sevs. map_of h sev = Some (of_nat (count_list sevs sev))) \<and>
      (set sevs \<subseteq> knownSeverities \<longrightarrow> length h = 5)"
proof -
  have "set (severities (TrivyOutputResults i)) \<subseteq> knownSeverities \<Longrightarrow>
        length (TotalVulnerabilityBySeverity (buildVulnerabilitySummary i)) = 5"
    by (simp add: histogram_length Un_absorb2 card_knownSeverities)
  then show ?thesis
    by (simp add: Let_def histogram_distinct histogram_keys histogram_count)
qed

text \<open>An instance: two HIGH findings and one LOW finding.\<close>

theorem histogram_known_keys_witness:
  "set (severities [target [''HIGH'', ''LOW'', ''HIGH'']]) \<subseteq> knownSeverities \<and>
   length (TotalVulnerabilityBySeverity (buildVulnerabilitySummary
     (NewScannedImage ''a'' [container ''a'' 1] [target [''HIGH'', ''LOW'', ''HIGH'']] None))) = 5 \<and>
   map_of (TotalVulnerabilityBySeverity (buildVulnerabilitySummary
     (NewScannedImage ''a'' [container ''a'' 1] [target [''HIGH'', ''LOW'', ''HIGH'']] None))) ''HIGH'' = Some 2 \<and>
   map_of (TotalVulnerabilityBySeverity (buildVulnerabilitySummary
     (NewScannedImage ''a'' [container ''a'' 1] [target [''HIGH'', ''LOW'', ''HIGH'']] None))) ''CRITICAL'' = Some 0"
proof -
  have sub: "set (severities [target [''HIGH'', ''LOW'', ''HIGH'']]) \<subseteq> knownSeverities"
    by (simp add: severities_target knownSeverities_def)
  from histogram_known_keys[of "NewScannedImage ''a'' [container ''a'' 1] [target [''HIGH'', ''LOW'', ''HIGH'']] None"] sub
  show ?thesis
    by (simp add: Let_def NewScannedImage_simps severities_target knownSeverities_def)
qed

text \<open>
  The histogram does not have five keys for every input: one finding of the severity
  \<open>NEGLIGIBLE\<close> gives six.
\<close>

theorem histogram_five_keys_counterexample:
  "map fst (TotalVulnerabilityBySeverity (buildVulnerabilitySummary
     (NewScannedImage ''a'' [container ''a'' 1] [target [''NEGLIGIBLE'']] None))) =
   [''CRITICAL'', ''HIGH'', ''MEDIUM'', ''LOW'', ''UNKNOWN'', ''NEGLIGIBLE''] \<and>
   length (TotalVulnerabilityBySeverity (buildVulnerabilitySummary
     (NewScannedImage ''a'' [container ''a'' 1] [target [''NEGLIGIBLE'']] None))) \<noteq> 5"
  by (simp add: histogram_eq NewScannedImage_simps findings_target zeroSeverityMap_eq
      countVulnerability_def finding_def mapGet_def)

text \<open>
  Claim C4, as the code has it. An image with at least one CRITICAL finding has a strictly
  greater \<open>SeverityScore\<close>, as signed 64-bit integers, than an image whose findings are
  all HIGH, MEDIUM, LOW or UNKNOWN, provided the second has fewer than 100 findings and
  the first has at most 92233720368, the greatest number whose product with the weight of
  CRITICAL is below \<open>2 ^ 63\<close>.
\<close>

theorem critical_outweighs_fewer_than_100:
  assumes "''CRITICAL'' \<in> set (severities (TrivyOutputResults i1))"
      and "set (severities (TrivyOutputResults i2)) \<subseteq> {''HIGH'', ''MEDIUM'', ''LOW'', ''UNKNOWN''}"
      and "length (findings (TrivyOutputResults i2)) < 100"
      and "length (findings (TrivyOutputResults i1)) \<le> 92233720368"
  shows "sint (SeverityScore (buildVulnerabilitySummary i2)) <
         sint (SeverityScore (buildVulnerabilitySummary i1))"
proof -
  let ?w = "\<lambda>sev. unat (mapGet severityScores 0 sev)"
  let ?s1 = "severities (TrivyOutputResults i1)" and ?s2 = "severities (TrivyOutputResults i2)"
  have len2: "length ?s2 < 100" using assms(3) by (simp add: severities_def)
  have "(\<Sum>sev\<leftarrow>?s2. ?w sev) \<le> 1000000 * length ?s2"
    using assms(2) by (intro sum_list_le_length unat_weight_lower) auto
  with len2 have low: "(\<Sum>sev\<leftarrow>?s2. ?w sev) < 100000000" by simp
  have "?w ''CRITICAL'' \<in> set (map ?w ?s1)" using assms(1) by (simp only: set_map) (rule imageI)
  then have "?w ''CRITICAL'' \<le> (\<Sum>sev\<leftarrow>?s1. ?w sev)" by (rule member_le_sum_list) simp
  then have hi: "100000000 \<le> (\<Sum>sev\<leftarrow>?s1. ?w sev)" by (simp only: unat_weight_critical)
  have "sint (SeverityScore (buildVulnerabilitySummary i2)) = int (\<Sum>sev\<leftarrow>?s2. ?w sev)"
    using assms(3) by (intro sint_SeverityScore) simp
  moreover have "sint (SeverityScore (buildVulnerabilitySummary i1)) = int (\<Sum>sev\<leftarrow>?s1. ?w sev)"
    using assms(4) by (rule sint_SeverityScore)
  ultimately show ?thesis using low hi by simp
qed

text \<open>An instance: a LOW and a CRITICAL finding against 99 HIGH findings.\<close>

theorem critical_outweighs_witness:
  "''CRITICAL'' \<in> set (severities [target [''LOW'', ''CRITICAL'']]) \<and>
   set (severities [target (replicate 99 ''HIGH'')]) \<subseteq> {''HIGH'', ''MEDIUM'', ''LOW'', ''UNKNOWN''} \<and>
   length (findings [target (replicate 99 ''HIGH'')]) < 100 \<and>
   length (findings [target [''LOW'', ''CRITICAL'']]) \<le> 92233720368 \<and>
   sint (SeverityScore (buildVulnerabilitySummary
     (NewScannedImage ''b'' [container ''b'' 1] [target (replicate 99 ''HIGH'')] None))) <
   sint (SeverityScore (buildVulnerabilitySummary
     (NewScannedImage ''a'' [container ''a'' 1] [target [''LOW'', ''CRITICAL'']] None)))"
proof -
  have h: "''CRITICAL'' \<in> set (severities [target [''LOW'', ''CRITICAL'']]) \<and>
   set (severities [target (replicate 99 ''HIGH'')]) \<subseteq> {''HIGH'', ''MEDIUM'', ''LOW'', ''UNKNOWN''} \<and>
   length (findings [target (replicate 99 ''HIGH'')]) < 100 \<and>
   length (findings [target [''LOW'', ''CRITICAL'']]) \<le> 92233720368"
    by (simp add: severities_target findings_target)
  from h critical_outweighs_fewer_than_100[of
      "NewScannedImage ''a'' [container ''a'' 1] [target [''LOW'', ''CRITICAL'']] None"
      "NewScannedImage ''b'' [container ''b'' 1] [target (replicate 99 ''HIGH'')] None"]
  show ?thesis by (simp add: NewScannedImage_simps)
qed

text \<open>
  Without the bound the order fails: 100 HIGH findings score as much as one CRITICAL
  finding.
\<close>

theorem critical_outweighs_counterexample:
  "''CRITICAL'' \<in> set (severities [target [''CRITICAL'']]) \<and>
   set (severities [target (replicate 100 ''HIGH'')]) \<subseteq> {''HIGH'', ''MEDIUM'', ''LOW'', ''UNKNOWN''} \<and>
   SeverityScore (buildVulnerabilitySummary
     (NewScannedImage ''b'' [container ''b'' 1] [target (replicate 100 ''HIGH'')] None)) = 100000000 \<and>
   SeverityScore (buildVulnerabilitySummary
     (NewScannedImage ''a'' [container ''a'' 1] [target [''CRITICAL'']] None)) = 100000000 \<and>
   \<not> sint (SeverityScore (buildVulnerabilitySummary
     (NewScannedImage ''b'' [container ''b'' 1] [target (replicate 100 ''HIGH'')] None))) <
   sint (SeverityScore (buildVulnerabilitySummary
     (NewScannedImage ''a'' [container ''a'' 1] [target [''CRITICAL'']] None)))"
  by (simp add: SeverityScore_target severities_target weight_eq sum_list_replicate)

text \<open>
  The bound on the first image is needed as well: with one more CRITICAL finding than it
  allows, the score wraps round to a negative number.
\<close>

lemma SeverityScore_wraps:
  "sint (SeverityScore (buildVulnerabilitySummary
     (NewScannedImage ''a'' [container ''a'' 1]
        [target (replicate 92233720369 ''CRITICAL'')] None))) = - 9223372036809551616"
  by (simp add: SeverityScore_target weight_eq sum_list_replicate)

text \<open>
  Claim C10. A finding whose severity is not one of the five known strings has its
  severity as a key of the histogram, holding the number of findings of that severity,
  so that the histogram has more than five keys; the weight looked up for it is 0, and
  the \<open>SeverityScore\<close> is the score of the same output without the findings of that
  severity.
\<close>

theorem unrecognised_severity_counted_unscored:
  assumes "v \<in> set (findings (TrivyOutputResults i))" and "Severity v \<notin> knownSeverities"
  shows "let h = TotalVulnerabilityBySeverity (buildVulnerabilitySummary i);
             n = count_list (severities (TrivyOutputResults i)) (Severity v)
         in map_of h (Severity v) = Some (of_nat n) \<and> 0 < n \<and> 5 < length h \<and>
            mapGet severityScores 0 (Severity v) = 0 \<and>
            SeverityScore (buildVulnerabilitySummary i) =
              SeverityScore (buildVulnerabilitySummary
                (i\<lparr> TrivyOutputResults := withoutSeverity (Severity v) (TrivyOutputResults i) \<rparr>))"
proof -
  let ?sevs = "severities (TrivyOutputResults i)"
  from assms(1) have mem: "Severity v \<in> set ?sevs" by (simp add: severities_def)
  have count: "map_of (TotalVulnerabilityBySeverity (buildVulnerabilitySummary i)) (Severity v) =
      Some (of_nat (count_list ?sevs (Severity v)))"
    using mem by (simp add: histogram_count)
  have pos: "0 < count_list ?sevs (Severity v)" using mem by (rule count_list_pos)
  have "card (insert (Severity v) knownSeverities) \<le> card (knownSeverities \<union> set ?sevs)"
    using mem by (intro card_mono) (auto simp: finite_knownSeverities)
  moreover have "card (insert (Severity v) knownSeverities) = 6"
    using assms(2) by (simp add: card_knownSeverities finite_knownSeverities)
  ultimately have len: "5 < length (TotalVulnerabilityBySeverity (buildVulnerabilitySummary i))"
    by (simp add: histogram_length)
  have zero: "mapGet severityScores 0 (Severity v) = 0" using assms(2) by (rule weight_unknown)
  have score: "SeverityScore (buildVulnerabilitySummary i) =
      SeverityScore (buildVulnerabilitySummary
        (i\<lparr> TrivyOutputResults := withoutSeverity (Severity v) (TrivyOutputResults i) \<rparr>))"
    by (simp add: SeverityScore_eq severities_withoutSeverity sum_list_filter_zero[of "mapGet severityScores 0" "Severity v", OF zero])
  from count pos len zero score show ?thesis by (simp add: Let_def)
qed

text \<open>An instance: one HIGH finding and two findings of the severity \<open>NEGLIGIBLE\<close>.\<close>

theorem unrecognised_severity_counted_unscored_witness:
  "finding ''NEGLIGIBLE'' \<in> set (findings [target [''HIGH'', ''NEGLIGIBLE'', ''NEGLIGIBLE'']]) \<and>
   Severity (finding ''NEGLIGIBLE'') \<notin> knownSeverities \<and>
   map_of (TotalVulnerabilityBySeverity (buildVulnerabilitySummary
     (NewScannedImage ''a'' [container ''a'' 1] [target [''HIGH'', ''NEGLIGIBLE'', ''NEGLIGIBLE'']] None)))
     ''NEGLIGIBLE'' = Some 2 \<and>
   5 < length (TotalVulnerabilityBySeverity (buildVulnerabilitySummary
     (NewScannedImage ''a'' [container ''a'' 1] [target [''HIGH'', ''NEGLIGIBLE'', ''NEGLIGIBLE'']] None)))"
proof -
  have h1: "finding ''NEGLIGIBLE'' \<in>
      set (findings (TrivyOutputResults (NewScannedImage ''a'' [container ''a'' 1]
        [target [''HIGH'', ''NEGLIGIBLE'', ''NEGLIGIBLE'']] None)))"
    by (simp add: NewScannedImage_simps findings_target)
  have h2: "Severity (finding ''NEGLIGIBLE'') \<notin> knownSeverities"
    by (simp add: finding_def knownSeverities_def)
  have s: "Severity (finding ''NEGLIGIBLE'') = ''NEGLIGIBLE''" by (simp add: finding_def)
  from unrecognised_severity_counted_unscored[OF h1 h2] h1 h2
  show ?thesis
    by (simp add: Let_def NewScannedImage_simps severities_target s)
qed

subsection \<open>The image grouper\<close>

lemma map_of_groupContainer:
  "map_of (groupContainer g c) = (map_of g)(Image c \<mapsto> mapGet g [] (Image c) @ [c])"
  by (cases "map_of g (Image c)")
    (simp_all add: groupContainer_def Let_def mapGet_def update_conv')

lemma keys_groupContainer:
  "fst ` set (groupContainer g c) = insert (Image c) (fst ` set g)"
  by (simp add: groupContainer_def Let_def dom_update)

lemma distinct_groupContainer:
  "distinct (map fst g) \<Longrightarrow> distinct (map fst (groupContainer g c))"
  by (simp add: groupContainer_def Let_def distinct_update)

lemma mapGet_groupContainer:
  "mapGet (groupContainer g c) [] k =
     mapGet g [] k @ (if Image c = k then [c] else [])"
  by (simp add: mapGet_def map_of_groupContainer)

lemma mset_update:
  "mset (concat (map snd (AList.update k v g))) + mset (mapGet g [] k) =
     mset (concat (map snd g)) + mset v"
  by (induction g) (auto simp: mapGet_def)

lemma mset_groupContainer:
  "mset (concat (map snd (groupContainer g c))) = mset (concat (map snd g)) + {#c#}"
proof -
  let ?k = "Image c"
  let ?g1 = "if map_of g ?k = None then AList.update ?k [] g else g"
  have g1: "mset (concat (map snd ?g1)) = mset (concat (map snd g))"
  proof (cases "map_of g ?k")
    case None
    with mset_update[of ?k "[]" g] show ?thesis by (simp add: mapGet_def)
  next
    case (Some v)
    then show ?thesis by simp
  qed
  have "mset (concat (map snd (groupContainer g c))) + mset (mapGet ?g1 [] ?k) =
        mset (concat (map snd ?g1)) + mset (mapGet ?g1 [] ?k @ [c])"
    unfolding groupContainer_def Let_def by (rule mset_update)
  then show ?thesis by (simp add: g1)
qed

lemma mapGet_grouped:
  "mapGet (foldl groupContainer g cs) [] k = mapGet g [] k @ filter (\<lambda>c. Image c = k) cs"
  by (induction cs arbitrary: g) (simp_all add: mapGet_groupContainer)

lemma keys_grouped:
  "fst ` set (foldl groupContainer g cs) = fst ` set g \<union> Image ` set cs"
  by (induction cs arbitrary: g) (simp_all add: keys_groupContainer)

lemma distinct_grouped:
  "distinct (map fst g) \<Longrightarrow> distinct (map fst (foldl groupContainer g cs))"
  by (induction cs arbitrary: g) (simp_all add: distinct_groupContainer)

lemma mset_grouped:
  "mset (concat (map snd (foldl groupContainer g cs))) = mset (concat (map snd g)) + mset cs"
  by (induction cs arbitrary: g) (simp_all add: mset_groupContainer)

text \<open>
  Claim C6. The keys of the grouping are distinct and are the image references of the
  containers; the group of a key is the list of the containers with that image, in the
  order of the input, and is not empty; the groups together hold every container of the
  input as often as the input does; no containers give no groups.
\<close>

theorem groupContainersByImageName_partition:
  "let groups = groupContainersByImageName containers in
     distinct (map fst groups) \<and>
     fst ` set groups = Image ` set containers \<and>
     (\<forall>(imageName, members) \<in> set groups.
        members = filter (\<lambda>c. Image c = imageName) containers \<and> members \<noteq> []) \<and>
     mset (concat (map snd groups)) = mset containers \<and>
     (containers = [] \<longrightarrow> groups = [])"
proof -
  let ?g = "groupContainersByImageName containers"
  have d: "distinct (map fst ?g)"
    by (simp add: groupContainersByImageName_def distinct_grouped)
  have k: "fst ` set ?g = Image ` set containers"
    by (simp add: groupContainersByImageName_def keys_grouped)
  have m: "members = filter (\<lambda>c. Image c = imageName) containers \<and> members \<noteq> []"
    if "(imageName, members) \<in> set ?g" for imageName members
  proof -
    from that d have "map_of ?g imageName = Some members" by simp
    then have "mapGet ?g [] imageName = members" by (simp add: mapGet_def)
    moreover have "mapGet ?g [] imageName = filter (\<lambda>c. Image c = imageName) containers"
      unfolding groupContainersByImageName_def mapGet_grouped by (simp add: mapGet_def)
    ultimately have eq: "members = filter (\<lambda>c. Image c = imageName) containers"
      by simp
    from that have "imageName \<in> fst ` set ?g" by force
    with k obtain c where "c \<in> set containers" "Image c = imageName" by auto
    then have "filter (\<lambda>c. Image c = imageName) containers \<noteq> []"
      by (auto simp: filter_empty_conv)
    with eq show ?thesis by simp
  qed
  have s: "mset (concat (map snd ?g)) = mset containers"
    by (simp add: groupContainersByImageName_def mset_grouped)
  have e: "containers = [] \<longrightarrow> ?g = []"
    by (simp add: groupContainersByImageName_def)
  have m': "\<forall>(imageName, members) \<in> set ?g.
      members = filter (\<lambda>c. Image c = imageName) containers \<and> members \<noteq> []"
    using m by blast
  show ?thesis unfolding Let_def using d k m' s e by (intro conjI)
qed

text \<open>An instance: three containers on two images.\<close>

theorem groupContainersByImageName_partition_witness:
  "groupContainersByImageName [container ''a'' 1, container ''b'' 2, container ''a'' 3] =
     [(''a'', [container ''a'' 1, container ''a'' 3]), (''b'', [container ''b'' 2])] \<and>
   mset (concat (map snd (groupContainersByImageName
     [container ''a'' 1, container ''b'' 2, container ''a'' 3]))) =
     mset [container ''a'' 1, container ''b'' 2, container ''a'' 3] \<and>
   groupContainersByImageName ([] :: nat ContainerSummary list) = []"
proof -
  have "groupContainersByImageName [container ''a'' 1, container ''b'' 2, container ''a'' 3] =
     [(''a'', [container ''a'' 1, container ''a'' 3]), (''b'', [container ''b'' 2])]"
    by (simp add: groupContainersByImageName_def groupContainer_def container_def mapGet_def)
  with groupContainersByImageName_partition[of
      "[container ''a'' 1, container ''b'' 2, container ''a'' 3]"]
    groupContainersByImageName_partition[of "[] :: nat ContainerSummary list"]
  show ?thesis by (simp add: Let_def container_def)
qed

subsection \<open>The orchestration\<close>








text \<open>
  Claim C7. \<open>scanImages\<close> calls the database download first, before anything is handed
  to the pool. If the download fails, the result is an error and no other call is made:
  no image is pulled, scanned or removed, and there are no scanned images. If the
  download succeeds, the result is never an error, whatever the pool does and whatever
  the pulls, scans, removals and name resolutions return: it is the list that the pool
  has collected from the functions submitted for the entries of the image list.
\<close>

theorem scanImages_fatal_only_on_download:
  "(DownloadDatabase (trivyClient s) ''image'' w = (Some e, w1) \<longrightarrow>
      scanImages pool s imageList (w, tr) =
        (Inl (''failed to download trivy db: '' @ e), (w1, tr @ [DownloadDatabaseCall ''image'']))) \<and>
   (DownloadDatabase (trivyClient s) ''image'' w = (None, w1) \<longrightarrow>
      scanImages pool s imageList (w, tr) =
        (Inr (fst (pool (Workers (config s))
                (map (\<lambda>entry acc. submitImage s acc entry) imageList)
                ([], (w1, tr @ [DownloadDatabaseCall ''image''])))),
         snd (pool (Workers (config s))
                (map (\<lambda>entry acc. submitImage s acc entry) imageList)
                ([], (w1, tr @ [DownloadDatabaseCall ''image''])))))"
proof (intro conjI impI)
  assume "DownloadDatabase (trivyClient s) ''image'' w = (Some e, w1)"
  then show "scanImages pool s imageList (w, tr) =
        (Inl (''failed to download trivy db: '' @ e), (w1, tr @ [DownloadDatabaseCall ''image'']))"
    by (simp add: scanImages_def invoke_def)
next
  assume "DownloadDatabase (trivyClient s) ''image'' w = (None, w1)"
  then show "scanImages pool s imageList (w, tr) =
        (Inr (fst (pool (Workers (config s))
                (map (\<lambda>entry acc. submitImage s acc entry) imageList)
                ([], (w1, tr @ [DownloadDatabaseCall ''image''])))),
         snd (pool (Workers (config s))
                (map (\<lambda>entry acc. submitImage s acc entry) imageList)
                ([], (w1, tr @ [DownloadDatabaseCall ''image'']))))"
    by (simp add: scanImages_def invoke_def split: prod.splits)
qed

text \<open>
  An instance of each case, with one worker. In the second one the rule is malformed and
  the pull, the scan and the removal of the image all fail.
\<close>

theorem scanImages_fatal_only_on_download_witness:
  "DownloadDatabase (trivyClient (exampleScanner True ''x'')) ''image'' 0 = (Some ''no network'', 1) \<and>
   scanImages oneWorkerPool (exampleScanner True ''x'') [(''bad'', [container ''bad'' 1])] (0, []) =
     (Inl ''failed to download trivy db: no network'', (1, [DownloadDatabaseCall ''image''])) \<and>
   DownloadDatabase (trivyClient (exampleScanner False ''x'')) ''image'' 0 = (None, 1) \<and>
   snd (stringReplacement ''bad'' ''x'') = Some formatError \<and>
   scanImages oneWorkerPool (exampleScanner False ''x'') [(''bad'', [container ''bad'' 1])] (0, []) =
     (Inr [NewScannedImage ''bad'' [container ''bad'' 1] []
             (Some ''error executing trivy for image bad: exit status 1'')],
      (4, [DownloadDatabaseCall ''image'', PullImageCall ''bad'', ScanImageCall ''bad'',
           RmiImageCall ''bad'']))"
proof -
  let ?t = "exampleScanner True ''x'' :: (nat, nat, string) Scanner"
  let ?s = "exampleScanner False ''x'' :: (nat, nat, string) Scanner"
  have d1: "DownloadDatabase (trivyClient ?t) ''image'' 0 = (Some ''no network'', 1)"
    by (simp add: exampleScanner_def)
  have d2: "DownloadDatabase (trivyClient ?s) ''image'' 0 = (None, 1)"
    by (simp add: exampleScanner_def)
  have r: "stringReplacement ''bad'' ''x'' = (''bad'', Some formatError)" by code_simp
  have c: "ImageNameReplacement (config ?s) = ''x''"
    by (simp add: exampleScanner_def exampleConfig_def)
  have p: "oneWorkerPool (Workers (config ?s))
        (map (\<lambda>entry acc. submitImage ?s acc entry) [(''bad'', [container ''bad'' 1])])
        ([], (1, [] @ [DownloadDatabaseCall ''image''])) =
      ([NewScannedImage ''bad'' [container ''bad'' 1] []
          (Some ''error executing trivy for image bad: exit status 1'')],
       (4, [DownloadDatabaseCall ''image'', PullImageCall ''bad'', ScanImageCall ''bad'',
            RmiImageCall ''bad'']))"
    by (simp add: oneWorkerPool_def sequentialPool_def submitImage_def c r worker_def invoke_def)
      (simp add: exampleScanner_def)
  from scanImages_fatal_only_on_download[of ?t 0 "''no network''" 1 oneWorkerPool
      "[(''bad'', [container ''bad'' 1])]" "[]"] d1
  have a: "scanImages oneWorkerPool ?t [(''bad'', [container ''bad'' 1])] (0, []) =
     (Inl ''failed to download trivy db: no network'', (1, [DownloadDatabaseCall ''image'']))"
    by simp
  from scanImages_fatal_only_on_download[of ?s 0 _ 1 oneWorkerPool
      "[(''bad'', [container ''bad'' 1])]" "[]"] d2
  have b: "scanImages oneWorkerPool ?s [(''bad'', [container ''bad'' 1])] (0, []) =
     (Inr [NewScannedImage ''bad'' [container ''bad'' 1] []
             (Some ''error executing trivy for image bad: exit status 1'')],
      (4, [DownloadDatabaseCall ''image'', PullImageCall ''bad'', ScanImageCall ''bad'',
           RmiImageCall ''bad'']))"
    by (simp only: p fst_conv snd_conv simp_thms)
  from d1 a d2 r b show ?thesis by simp
qed




text \<open>
  Claim C9, as the code has it. \<open>CisScan\<close> calls the compliance engine once, for the
  named benchmark. If the call fails, the report generator is not called and the error
  returned is the text \<open>error executing trivy cluster scan: \<close> followed by the error of
  the engine; the benchmark name is not added. If the call succeeds, the report generator
  is called once, with the empty list of scanned images and not with the output of the
  engine, and its result is returned.
\<close>

theorem CisScan_calls:
  "(TrivyCisScan (trivyClient s) benchmark w = ((trivyOutput, Some e), w1) \<longrightarrow>
      CisScan generate s benchmark (w, tr) =
        ((None, Some (''error executing trivy cluster scan: '' @ e)),
         (w1, tr @ [CisScanCall benchmark]))) \<and>
   (TrivyCisScan (trivyClient s) benchmark w = ((trivyOutput, None), w1) \<and>
    generate \<lparr> AreaLabelName = AreaLabels (config s), TeamLabelName = TeamsLabels (config s) \<rparr>
      [] w1 = (result, w2) \<longrightarrow>
      CisScan generate s benchmark (w, tr) =
        (result,
         (w2, tr @ [CisScanCall benchmark,
                    GenerateVulnerabilityReportCall
                      \<lparr> AreaLabelName = AreaLabels (config s),
                        TeamLabelName = TeamsLabels (config s) \<rparr> []])))"
  by (simp add: CisScan_def invoke_def Let_def)

text \<open>An instance of each case.\<close>

theorem CisScan_calls_witness:
  "TrivyCisScan (trivyClient (exampleScanner False [])) ''k8s-cis'' 0 =
     ((None, Some ''exit status 1''), 1) \<and>
   CisScan exampleGenerator (exampleScanner False []) ''k8s-cis'' (0, []) =
     ((None, Some ''error executing trivy cluster scan: exit status 1''),
      (1, [CisScanCall ''k8s-cis''])) \<and>
   TrivyCisScan (trivyClient (exampleScanner False [])) ''k8s-nsa'' 0 =
     ((Some ''passed'', None), 1) \<and>
   exampleGenerator \<lparr> AreaLabelName = ''area'', TeamLabelName = ''team'' \<rparr> [] 1 =
     ((Some 0, None), 2) \<and>
   CisScan exampleGenerator (exampleScanner False []) ''k8s-nsa'' (0, []) =
     ((Some 0, None),
      (2, [CisScanCall ''k8s-nsa'',
           GenerateVulnerabilityReportCall
             \<lparr> AreaLabelName = ''area'', TeamLabelName = ''team'' \<rparr> []]))"
proof -
  let ?s = "exampleScanner False [] :: (nat, nat, string) Scanner"
  have c: "AreaLabels (config ?s) = ''area''" "TeamsLabels (config ?s) = ''team''"
    by (simp_all add: exampleScanner_def exampleConfig_def)
  have h1: "TrivyCisScan (trivyClient ?s) ''k8s-cis'' 0 = ((None, Some ''exit status 1''), 1)"
    by (simp add: exampleScanner_def)
  have h2: "TrivyCisScan (trivyClient ?s) ''k8s-nsa'' 0 = ((Some ''passed'', None), 1)"
    by (simp add: exampleScanner_def)
  have h3: "exampleGenerator \<lparr> AreaLabelName = ''area'', TeamLabelName = ''team'' \<rparr> [] 1 =
     ((Some 0, None), 2)"
    by (simp add: exampleGenerator_def)
  from CisScan_calls[where s = ?s and benchmark = "''k8s-cis''" and w = 0 and trivyOutput = None
      and e = "''exit status 1''" and ?w1.0 = 1 and generate = exampleGenerator and tr = "[]"] h1
  have a: "CisScan exampleGenerator ?s ''k8s-cis'' (0, []) =
     ((None, Some ''error executing trivy cluster scan: exit status 1''),
      (1, [CisScanCall ''k8s-cis'']))"
    by simp
  from CisScan_calls[where s = ?s and benchmark = "''k8s-nsa''" and w = 0
      and trivyOutput = "Some ''passed''" and ?w1.0 = 1 and generate = exampleGenerator
      and result = "(Some 0, None)" and ?w2.0 = 2 and tr = "[]"] h2 h3
  have b: "CisScan exampleGenerator ?s ''k8s-nsa'' (0, []) =
     ((Some 0, None),
      (2, [CisScanCall ''k8s-nsa'',
           GenerateVulnerabilityReportCall
             \<lparr> AreaLabelName = ''area'', TeamLabelName = ''team'' \<rparr> []]))"
    by (simp add: c)
  from h1 a h2 h3 b show ?thesis by simp
qed

text \<open>
  The error of a failed run on the benchmark \<open>k8s-cis\<close> does not hold the benchmark
  name, and a successful run, whose engine output is \<open>passed\<close>, hands the empty list to
  the report generator.
\<close>

theorem CisScan_counterexample:
  "CisScan exampleGenerator (exampleScanner False []) ''k8s-cis'' (0, []) =
     ((None, Some ''error executing trivy cluster scan: exit status 1''),
      (1, [CisScanCall ''k8s-cis''])) \<and>
   Index ''error executing trivy cluster scan: exit status 1'' ''k8s-cis'' = None \<and>
   TrivyCisScan (trivyClient (exampleScanner False [])) ''k8s-nsa'' 0 =
     ((Some ''passed'', None), 1) \<and>
   snd (snd (CisScan exampleGenerator (exampleScanner False []) ''k8s-nsa'' (0, []))) =
     [CisScanCall ''k8s-nsa'',
      GenerateVulnerabilityReportCall \<lparr> AreaLabelName = ''area'', TeamLabelName = ''team'' \<rparr> []]"
  by (simp add: CisScan_def invoke_def exampleScanner_def exampleConfig_def
      exampleGenerator_def Let_def)

end
